theory Spec2Isabelle
  imports Main "HOL-Library.Sublist"
begin

section \<open>Shared vocabulary\<close>

text \<open>
  A JavaScript exception is a value: the thrown \<open>Error\<close> object, of which the programs
  only ever read \<open>message\<close>. A call into the storage SDK or into \<open>fetch\<close> either
  returns (\<open>Inr\<close>) or throws (\<open>Inl\<close>).
\<close>

datatype error = Error (message: string)

section \<open>The sweep utility (cleanup.ts)\<close>

text \<open>
  The storage emulator is outside the program. What the sweep can observe of it is
  the answer of \<open>containerClient.exists()\<close>, the items the async iterator of
  \<open>listBlobsFlat()\<close> yields (and the exception it may throw after them), and whether the
  \<open>k\<close>-th call of \<open>blobClient.delete\<close>, made for a given name, throws.
\<close>

record blob_item =
  name :: string
  contentLength :: nat

record storage =
  existsResult :: "error + bool"
  listed :: "blob_item list"
  listFailure :: "error option"
  deleteResult :: "nat \<Rightarrow> string \<Rightarrow> error option"

text \<open>The lines written to the console, one constructor per \<open>console.log\<close> /
  \<open>console.error\<close> call of the source, with the values interpolated into it.\<close>

datatype sweep_msg =
    StatusCleaningUp string
  | InfoDoesNotExist string
  | InfoExistsListing string
  | InfoFound string nat
  | InfoAlreadyEmpty
  | InfoFoundCount nat
  | InfoDeleted string
  | ErrorFailedToDelete string string
  | SummaryFound nat
  | SummaryDeleted nat
  | SummaryFailed nat
  | InfoAllDeleted
  | WarnSomeNotDeleted
  | ErrorNoneDeleted
  | InfoStarting
  | InfoCompleted
  | ErrorCleanupFailed string

text \<open>What a run leaves behind: the console, and the names \<open>blobClient.delete\<close> was
  called for, in call order.\<close>

record sweep_state =
  console :: "sweep_msg list"
  deleteCalls :: "string list"

definition say :: "sweep_msg \<Rightarrow> sweep_state \<Rightarrow> sweep_state" where
  "say m st = st\<lparr>console := console st @ [m]\<rparr>"

text \<open>The \<open>for await\<close> loop over \<open>listBlobsFlat()\<close>: every item yielded is logged and
  its name pushed onto \<open>blobsToDelete\<close>.\<close>

fun listLoop :: "blob_item list \<Rightarrow> string list \<times> sweep_state \<Rightarrow> string list \<times> sweep_state" where
  "listLoop [] acc = acc"
| "listLoop (b # bs) (blobsToDelete, st) =
     listLoop bs (blobsToDelete @ [name b], say (InfoFound (name b) (contentLength b)) st)"

text \<open>The deletion loop, with its two counters. The \<open>try\<close>/\<open>catch\<close> is inside the
  loop body: a throwing \<open>delete\<close> lands in the \<open>catch\<close>, which logs and counts.\<close>

fun deleteLoop ::
  "storage \<Rightarrow> string list \<Rightarrow> nat \<times> nat \<times> sweep_state \<Rightarrow> nat \<times> nat \<times> sweep_state" where
  "deleteLoop env [] acc = acc"
| "deleteLoop env (blobName # rest) (successCount, failCount, st) =
     (let st1 = st\<lparr>deleteCalls := deleteCalls st @ [blobName]\<rparr> in
      case deleteResult env (length (deleteCalls st)) blobName of
        None \<Rightarrow> deleteLoop env rest (successCount + 1, failCount, say (InfoDeleted blobName) st1)
      | Some e \<Rightarrow>
          deleteLoop env rest
            (successCount, failCount + 1, say (ErrorFailedToDelete blobName (message e)) st1))"

text \<open>\<open>cleanupContainer\<close> returns the state it reached and, when an exception escaped
  it, that exception.\<close>

definition cleanupContainer :: "storage \<Rightarrow> string \<Rightarrow> sweep_state \<Rightarrow> sweep_state \<times> error option" where
  "cleanupContainer env containerName st0 =
     (let st1 = say (StatusCleaningUp containerName) st0 in
      (case existsResult env of
        Inl e \<Rightarrow> (st1, Some e)
      | Inr containerExists \<Rightarrow>
          (if \<not> containerExists then (say (InfoDoesNotExist containerName) st1, None)
           else
             (let st2 = say (InfoExistsListing containerName) st1;
                  (blobsToDelete, st3) = listLoop (listed env) ([], st2)
              in (case listFailure env of
                    Some e \<Rightarrow> (st3, Some e)
                  | None \<Rightarrow>
                     (if length blobsToDelete = 0 then (say InfoAlreadyEmpty st3, None)
                      else
                       (let st4 = say (InfoFoundCount (length blobsToDelete)) st3;
                            (successCount, failCount, st5) =
                               deleteLoop env blobsToDelete (0, 0, st4);
                            st6 = say (SummaryFailed failCount)
                                   (say (SummaryDeleted successCount)
                                     (say (SummaryFound (length blobsToDelete)) st5))
                        in (if successCount = length blobsToDelete
                            then (say InfoAllDeleted st6, None)
                            else if successCount > 0 then (say WarnSomeNotDeleted st6, None)
                            else (say ErrorNoneDeleted st6, None)))))))))"

text \<open>\<open>main\<close>: the process exit status is 1 exactly when the \<open>catch\<close> runs
  \<open>process.exit(1)\<close>, and 0 when the script runs to its end.\<close>

definition main :: "storage \<Rightarrow> sweep_state \<times> nat" where
  "main env =
     (let st0 = say InfoStarting \<lparr>console = [], deleteCalls = []\<rparr> in
      (case cleanupContainer env ''images'' st0 of
        (st, None) \<Rightarrow> (say InfoCompleted st, 0)
      | (st, Some e) \<Rightarrow> (say (ErrorCleanupFailed (message e)) st, 1)))"

text \<open>Auxiliary definitions the statements about the sweep are phrased with: the console
  line the \<open>k\<close>-th deletion produces, whether it fails, which console lines make up the
  summary block, and the closing verdict line.\<close>

definition deleteLine :: "storage \<Rightarrow> nat \<times> string \<Rightarrow> sweep_msg" where
  "deleteLine env kb =
     (case deleteResult env (fst kb) (snd kb) of
        None \<Rightarrow> InfoDeleted (snd kb)
      | Some e \<Rightarrow> ErrorFailedToDelete (snd kb) (message e))"

definition deleteFails :: "storage \<Rightarrow> nat \<times> string \<Rightarrow> bool" where
  "deleteFails env kb = (deleteResult env (fst kb) (snd kb) \<noteq> None)"

definition isSummary :: "sweep_msg \<Rightarrow> bool" where
  "isSummary m = (case m of SummaryFound _ \<Rightarrow> True | SummaryDeleted _ \<Rightarrow> True
                   | SummaryFailed _ \<Rightarrow> True | _ \<Rightarrow> False)"

definition verdict :: "nat \<Rightarrow> nat \<Rightarrow> sweep_msg" where
  "verdict successCount found =
     (if successCount = found then InfoAllDeleted
      else if successCount > 0 then WarnSomeNotDeleted else ErrorNoneDeleted)"

text \<open>A concrete emulator state used to run the sweep: two blobs, the second of which
  cannot be deleted.\<close>

definition demoStorage :: storage where
  "demoStorage =
     \<lparr>existsResult = Inr True,
      listed = [\<lparr>name = ''a.jpg'', contentLength = 67\<rparr>, \<lparr>name = ''b.jpg'', contentLength = 67\<rparr>],
      listFailure = None,
      deleteResult = (\<lambda>k n. if n = ''b.jpg'' then Some (Error ''LeaseIdMissing'') else None)\<rparr>"

section \<open>The upload agent (client.js)\<close>

text \<open>One element of the \<open>urls\<close> array of the issuance response, as the server builds
  it and the agent reads it.\<close>

record upload_record =
  blobName :: string
  uploadUrl :: string
  fileUrl :: string

text \<open>
  \<open>String.prototype.replace\<close> with a string pattern replaces the first occurrence of
  the pattern, scanning from the left, and leaves a string without an occurrence as it
  is. (The replacement text used by the agent holds no \<open>$\<close>, so none of the
  replacement patterns of JavaScript applies.)
\<close>

fun replaceFirst :: "string \<Rightarrow> string \<Rightarrow> string \<Rightarrow> string" where
  "replaceFirst pat rep [] = (if pat = [] then rep else [])"
| "replaceFirst pat rep (c # cs) =
     (if prefix pat (c # cs) then rep @ drop (length pat) (c # cs)
      else c # replaceFirst pat rep cs)"

definition clientUploadUrl :: "string \<Rightarrow> string" where
  "clientUploadUrl url = replaceFirst ''azurite:10000'' ''localhost:10000'' url"

text \<open>
  What \<open>fetch\<close> gives back for a PUT: it rejects (a transport-level exception), or it
  resolves to a response with a status line and a body, and reading the body with
  \<open>text()\<close> may reject in turn. The environment is the function giving the outcome of
  the \<open>k\<close>-th PUT, sent to a given URL.
\<close>

record http_response =
  status :: nat
  statusText :: string
  bodyText :: "error + string"

type_synonym put_env = "nat \<Rightarrow> string \<Rightarrow> error + http_response"

definition ok :: "http_response \<Rightarrow> bool" where
  "ok r = (200 \<le> status r \<and> status r \<le> 299)"

datatype client_msg =
    ReceivedUploadUrls "upload_record list"
  | CreatedFakeImage nat
  | StartingUploads
  | UploadingTo string
  | StatusSuccess string
  | InfoFileUrl string
  | ErrorFailedToUpload string
  | ErrorStatus nat string
  | ErrorBody string
  | ErrorUploading string string
  | UploadProcessCompleted
  | ErrorFetchingUploadUrls string

record client_state =
  printed :: "client_msg list"
  putCalls :: "string list"

definition tell :: "client_msg \<Rightarrow> client_state \<Rightarrow> client_state" where
  "tell m st = st\<lparr>printed := printed st @ [m]\<rparr>"

text \<open>The body of the \<open>for (const urlData of data.urls)\<close> loop: one \<open>try\<close> block per
  record, whose \<open>catch\<close> receives a rejection of \<open>fetch\<close> as well as one of
  \<open>text()\<close>.\<close>

definition uploadOne :: "put_env \<Rightarrow> upload_record \<Rightarrow> client_state \<Rightarrow> client_state" where
  "uploadOne put urlData st =
     (let st1 = tell (UploadingTo (blobName urlData)) st;
          url = clientUploadUrl (uploadUrl urlData);
          st2 = st1\<lparr>putCalls := putCalls st1 @ [url]\<rparr>
      in (case put (length (putCalls st1)) url of
            Inl e \<Rightarrow> tell (ErrorUploading (blobName urlData) (message e)) st2
          | Inr uploadResponse \<Rightarrow>
              (if ok uploadResponse
               then tell (InfoFileUrl (fileUrl urlData))
                      (tell (StatusSuccess (blobName urlData)) st2)
               else
                 (let st3 = tell (ErrorStatus (status uploadResponse) (statusText uploadResponse))
                              (tell (ErrorFailedToUpload (blobName urlData)) st2)
                  in (case bodyText uploadResponse of
                        Inl e \<Rightarrow> tell (ErrorUploading (blobName urlData) (message e)) st3
                      | Inr errorText \<Rightarrow> tell (ErrorBody errorText) st3)))))"

fun uploadLoop :: "put_env \<Rightarrow> upload_record list \<Rightarrow> client_state \<Rightarrow> client_state" where
  "uploadLoop put [] st = st"
| "uploadLoop put (urlData # rest) st = uploadLoop put rest (uploadOne put urlData st)"

text \<open>The 67 bytes of the 1x1 PNG the agent uploads.\<close>

definition fakeImageBuffer :: "nat list" where
  "fakeImageBuffer =
     [0x89, 0x50, 0x4E, 0x47, 0x0D, 0x0A, 0x1A, 0x0A,
      0x00, 0x00, 0x00, 0x0D, 0x49, 0x48, 0x44, 0x52,
      0x00, 0x00, 0x00, 0x01, 0x00, 0x00, 0x00, 0x01,
      0x08, 0x06, 0x00, 0x00, 0x00, 0x1F, 0x15, 0xC4,
      0x89,
      0x00, 0x00, 0x00, 0x0A, 0x49, 0x44, 0x41,
      0x54, 0x78, 0x9C, 0x63, 0x00, 0x01, 0x00, 0x00,
      0x05, 0x00, 0x01, 0x0D, 0x0A, 0x2D, 0xB4,
      0x00, 0x00, 0x00, 0x00, 0x49, 0x45, 0x4E, 0x44, 0xAE,
      0x42, 0x60, 0x82]"

text \<open>The whole promise chain: the request for upload URLs either fails (the outer
  \<open>catch\<close>) or delivers \<open>data.urls\<close>, which the loop then works through.\<close>

definition client :: "error + upload_record list \<Rightarrow> put_env \<Rightarrow> client_state" where
  "client issued put =
     (case issued of
        Inl e \<Rightarrow> \<lparr>printed = [ErrorFetchingUploadUrls (message e)], putCalls = []\<rparr>
      | Inr urls \<Rightarrow>
          tell UploadProcessCompleted
            (uploadLoop put urls
               \<lparr>printed = [ReceivedUploadUrls urls, CreatedFakeImage (length fakeImageBuffer),
                          StartingUploads],
                putCalls = []\<rparr>))"

text \<open>Auxiliary definitions for the statements about the agent: the console lines one
  record produces given the outcome of its PUT, and the two parts of a URL around the
  first \<open>?\<close>.\<close>

definition report :: "upload_record \<Rightarrow> error + http_response \<Rightarrow> client_msg list" where
  "report urlData outcome =
     UploadingTo (blobName urlData) #
     (case outcome of
        Inl e \<Rightarrow> [ErrorUploading (blobName urlData) (message e)]
      | Inr r \<Rightarrow>
          if ok r then [StatusSuccess (blobName urlData), InfoFileUrl (fileUrl urlData)]
          else [ErrorFailedToUpload (blobName urlData), ErrorStatus (status r) (statusText r),
                (case bodyText r of
                   Inl e \<Rightarrow> ErrorUploading (blobName urlData) (message e)
                 | Inr t \<Rightarrow> ErrorBody t)])"

definition beforeQuery :: "string \<Rightarrow> string" where
  "beforeQuery url = takeWhile (\<lambda>c. c \<noteq> CHR ''?'') url"

definition queryOf :: "string \<Rightarrow> string" where
  "queryOf url = drop 1 (dropWhile (\<lambda>c. c \<noteq> CHR ''?'') url)"

text \<open>A concrete run of the agent: three records; the first PUT is answered 201, the
  second 403 with an error body, the third is never answered.\<close>

definition demoUrls :: "upload_record list" where
  "demoUrls =
     [\<lparr>blobName = ''a.jpg'', uploadUrl = ''http://azurite:10000/d/images/a.jpg?sp=w&sig=A'',
       fileUrl = ''http://azurite:10000/d/images/a.jpg''\<rparr>,
      \<lparr>blobName = ''b.jpg'', uploadUrl = ''http://azurite:10000/d/images/b.jpg?sp=w&sig=B'',
       fileUrl = ''http://azurite:10000/d/images/b.jpg''\<rparr>,
      \<lparr>blobName = ''c.jpg'', uploadUrl = ''http://azurite:10000/d/images/c.jpg?sp=w&sig=C'',
       fileUrl = ''http://azurite:10000/d/images/c.jpg''\<rparr>]"

definition demoPut :: put_env where
  "demoPut k url =
     (if k = 0 then Inr \<lparr>status = 201, statusText = ''Created'', bodyText = Inr []\<rparr>
      else if k = 1 then
        Inr \<lparr>status = 403, statusText = ''Forbidden'', bodyText = Inr ''AuthenticationFailed''\<rparr>
      else Inl (Error ''fetch failed''))"

section \<open>The token issuance service (index.ts)\<close>

subsection \<open>Strings of JavaScript\<close>

text \<open>
  \<open>String.prototype.split\<close> with a one-character separator: the pieces between the
  separators, in order; a string without the separator is its own single piece, and the
  empty string gives one empty piece.
\<close>

fun split :: "char \<Rightarrow> string \<Rightarrow> string list" where
  "split sep [] = [ [] ]"
| "split sep (c # cs) =
     (if c = sep then [] # split sep cs
      else (case split sep cs of
              [] \<Rightarrow> [ [c] ]
            | p # ps \<Rightarrow> (c # p) # ps))"

text \<open>\<open>String.prototype.substring(start, end)\<close> for non-negative arguments: both are
  clamped to the length and swapped when out of order.\<close>

definition substring :: "string \<Rightarrow> nat \<Rightarrow> nat \<Rightarrow> string" where
  "substring s start end =
     (let a = min start (length s); b = min end (length s)
      in take (max a b - min a b) (drop (min a b) s))"

text \<open>The decimal rendering of an integer, which is what a template literal makes of
  an integral Number of the magnitude of \<open>Date.now()\<close>.\<close>

definition digitChar :: "nat \<Rightarrow> char" where
  "digitChar d = ''0123456789'' ! d"

fun showNat :: "nat \<Rightarrow> string" where
  "showNat n = (if n < 10 then [digitChar n] else showNat (n div 10) @ [digitChar (n mod 10)])"

declare showNat.simps [simp del]

definition showInt :: "int \<Rightarrow> string" where
  "showInt i = (if i < 0 then CHR ''-'' # showNat (nat (- i)) else showNat (nat i))"

subsection \<open>\<open>parseConnectionString\<close>\<close>






text \<open>
  The credential object. The constructor belongs to the SDK: it stores the account name
  as given and decodes the key with \<open>Buffer.from(accountKey, "base64")\<close>, which
  accepts every string and throws a \<open>TypeError\<close> for \<open>undefined\<close>. The record keeps
  the key as the text the constructor was given.
\<close>

record credential =
  accountName :: "string option"
  accountKey :: string



subsection \<open>\<open>parseInt\<close> and \<open>Array.from\<close>\<close>

text \<open>
  \<open>parseInt(string)\<close> without a radix, after ECMAScript: the argument is converted to
  a string (\<open>undefined\<close> gives the text \<open>undefined\<close>), leading white space is
  dropped, one sign is read, a prefix \<open>0x\<close>/\<open>0X\<close> selects radix 16, and the longest
  run of digits of the radix is the number; no digit at all is \<open>NaN\<close>, here
  \<open>None\<close>. Strings are lists of 8-bit characters, so of the white space of JavaScript
  only the code units below 256 are covered. The value is kept exact: beyond \<open>2^53\<close>
  JavaScript rounds it to a double, which is monotone and therefore invisible to the
  comparisons made of it below (with 0 and with \<open>2^32 - 1\<close>).
\<close>

definition isWhiteSpace :: "char \<Rightarrow> bool" where
  "isWhiteSpace c = ((of_char c :: nat) \<in> {9, 10, 11, 12, 13, 32, 160})"

definition digitValue :: "char \<Rightarrow> nat option" where
  "digitValue c =
     (let n = (of_char c :: nat) in
      if 48 \<le> n \<and> n \<le> 57 then Some (n - 48)
      else if 97 \<le> n \<and> n \<le> 122 then Some (n - 87)
      else if 65 \<le> n \<and> n \<le> 90 then Some (n - 55)
      else None)"

definition isDigit :: "nat \<Rightarrow> char \<Rightarrow> bool" where
  "isDigit radix c = (case digitValue c of None \<Rightarrow> False | Some v \<Rightarrow> v < radix)"

definition digitsValue :: "nat \<Rightarrow> string \<Rightarrow> nat" where
  "digitsValue radix Z = foldl (\<lambda>acc c. acc * radix + the (digitValue c)) 0 Z"

definition parseInt :: "string option \<Rightarrow> int option" where
  "parseInt input =
     (let inputString = (case input of None \<Rightarrow> ''undefined'' | Some s \<Rightarrow> s);
          S = dropWhile isWhiteSpace inputString;
          sign = (if S \<noteq> [] \<and> hd S = CHR ''-'' then - 1 else 1 :: int);
          S1 = (if S \<noteq> [] \<and> (hd S = CHR ''+'' \<or> hd S = CHR ''-'') then tl S else S);
          hex = (take 2 S1 = ''0x'' \<or> take 2 S1 = ''0X'');
          R = (if hex then 16 else 10);
          S2 = (if hex then drop 2 S1 else S1);
          Z = takeWhile (isDigit R) S2
      in if Z = [] then None else Some (sign * int (digitsValue R Z)))"

text \<open>
  \<open>Array.from({ length: n })\<close>: the length is \<open>ToLength(n)\<close>, which is 0 for
  \<open>n \<le> 0\<close>, and the array constructor throws a \<open>RangeError\<close> for a length above
  \<open>2^32 - 1\<close>.
\<close>

definition arrayFromLength :: "int \<Rightarrow> error + nat" where
  "arrayFromLength n =
     (let len = (if n \<le> 0 then 0 else min n (2 ^ 53 - 1))
      in if len > 2 ^ 32 - 1 then Inl (Error ''Invalid array length'') else Inr (nat len))"

subsection \<open>The handler of \<open>POST /upload-urls\<close>\<close>

text \<open>
  The options object handed to \<open>generateBlobSASQueryParameters\<close>. Its \<open>containerName\<close>
  and \<open>blobName\<close> carry the prefix \<open>sas\<close> here, the latter name being taken by the
  response record; \<open>permissions\<close> holds the letters given to
  \<open>BlobSASPermissions.parse\<close> (\<open>w\<close> is write); the two dates are milliseconds since
  the epoch.
\<close>

datatype SASProtocol = Https | HttpsAndHttp

record sas_options =
  sasContainerName :: string
  sasBlobName :: string
  permissions :: string
  protocol :: SASProtocol
  startsOn :: int
  expiresOn :: int

text \<open>
  What the handler takes from outside: whether \<open>createIfNotExists\<close> throws, the
  successive readings of the clock (\<open>Date.now()\<close> and \<open>new Date()\<close> alike), the
  successive values of \<open>Math.random().toString(36)\<close>, the URL the SDK gives a blob
  client of a container, the SDK's signing function with its \<open>toString\<close>, which
  returns the query string of the token or throws, and whether \<open>res.json\<close> throws
  for a given array: it serialises the array with \<open>JSON.stringify\<close>, which throws a
  \<open>RangeError\<close> when the text would exceed the longest string of the engine.
\<close>

record issue_env =
  createIfNotExists :: "error option"
  now :: "nat \<Rightarrow> int"
  randomText :: "nat \<Rightarrow> string"
  blobClientUrl :: "string \<Rightarrow> string \<Rightarrow> string"
  generateBlobSASQueryParameters :: "sas_options \<Rightarrow> credential \<Rightarrow> error + string"
  resJson :: "upload_record list \<Rightarrow> error option"

text \<open>How many clock readings and random numbers have been consumed so far.\<close>

record draws =
  clockReads :: nat
  randomDraws :: nat

text \<open>The callback of \<open>map\<close>: one clock reading for the name, one random number, then
  one clock reading each for \<open>startsOn\<close> and \<open>expiresOn\<close>, in the order the object
  literal evaluates them.\<close>

definition makeUploadUrl ::
  "issue_env \<Rightarrow> credential \<Rightarrow> string \<Rightarrow> draws \<Rightarrow> (error + upload_record) \<times> draws" where
  "makeUploadUrl env cred containerName d =
     (let blobName = ''image-'' @ showInt (now env (clockReads d)) @ ''-''
                     @ substring (randomText env (randomDraws d)) 2 15 @ ''.jpg'';
          url = blobClientUrl env containerName blobName;
          options = \<lparr>sasContainerName = containerName,
                     sasBlobName = blobName,
                     permissions = ''w'',
                     protocol = HttpsAndHttp,
                     startsOn = now env (clockReads d + 1),
                     expiresOn = now env (clockReads d + 2) + 5 * 60 * 1000\<rparr>;
          d' = \<lparr>clockReads = clockReads d + 3, randomDraws = randomDraws d + 1\<rparr>
      in (case generateBlobSASQueryParameters env options cred of
            Inl e \<Rightarrow> (Inl e, d')
          | Inr sasToken \<Rightarrow>
              (Inr \<lparr>blobName = blobName, uploadUrl = url @ ''?'' @ sasToken, fileUrl = url\<rparr>,
               d')))"

text \<open>\<open>Array.from({ length: numUrls }).map(...)\<close>: the callback runs once per element,
  from the first to the last; an exception leaves the loop.\<close>

fun mapUrls ::
  "issue_env \<Rightarrow> credential \<Rightarrow> string \<Rightarrow> nat \<Rightarrow> draws \<Rightarrow> error + upload_record list" where
  "mapUrls env cred containerName 0 d = Inr []"
| "mapUrls env cred containerName (Suc n) d =
     (case makeUploadUrl env cred containerName d of
        (Inl e, d') \<Rightarrow> Inl e
      | (Inr r, d') \<Rightarrow>
          (case mapUrls env cred containerName n d' of
             Inl e \<Rightarrow> Inl e
           | Inr rs \<Rightarrow> Inr (r # rs)))"

text \<open>The two responses: \<open>res.json({ urls })\<close>, and status 500 with the error page.
  The query parameter \<open>count\<close> is \<open>undefined\<close> when absent and a string otherwise,
  as the cast \<open>count as string\<close> has it. Everything from \<open>createIfNotExists\<close> to
  \<open>res.json\<close> stands inside the \<open>try\<close>, so that an exception of any of them is
  answered by the \<open>catch\<close>.\<close>

datatype response =
    Json "upload_record list"
  | ServerError string

definition numUrls :: "string option \<Rightarrow> int" where
  "numUrls count = (case parseInt count of
                      None \<Rightarrow> 1
                    | Some n \<Rightarrow> if n = 0 then 1 else n)"

definition postUploadUrls :: "issue_env \<Rightarrow> credential \<Rightarrow> string option \<Rightarrow> response" where
  "postUploadUrls env cred count =
     (let containerName = ''images'';
          fail = (\<lambda>e. ServerError (''<h1>Error</h1><p>'' @ message e @ ''</p>''))
      in (case createIfNotExists env of
            Some e \<Rightarrow> fail e
          | None \<Rightarrow>
              (case arrayFromLength (numUrls count) of
                 Inl e \<Rightarrow> fail e
               | Inr len \<Rightarrow>
                   (case mapUrls env cred containerName len
                           \<lparr>clockReads = 0, randomDraws = 0\<rparr> of
                      Inl e \<Rightarrow> fail e
                    | Inr urls \<Rightarrow>
                        (case resJson env urls of
                           Some e \<Rightarrow> fail e
                         | None \<Rightarrow> Json urls)))))"




text \<open>
  Concrete surroundings to run the handler in. The blob URL is the one Azurite gives;
  the signing function stands in for the SDK's and writes the options it was given
  into the token, so that they can be read off the upload URL. In \<open>tickingEnv\<close> the
  clock advances by a millisecond at every second reading; in \<open>frozenEnv\<close> all
  readings fall into one millisecond and the random numbers repeat. In both, every
  array can be serialised; in \<open>shortStringEnv\<close> an array of two million records or
  more no longer fits a string, and in \<open>unreachableEnv\<close> the storage service does not
  answer.
\<close>

definition demoCredential :: credential where
  "demoCredential = \<lparr>accountName = Some ''devstoreaccount1'', accountKey = ''Eby8vdM02xNOcq''\<rparr>"

definition demoSign :: "sas_options \<Rightarrow> credential \<Rightarrow> error + string" where
  "demoSign options cred =
     Inr (''sp='' @ permissions options @ ''&st='' @ showInt (startsOn options)
          @ ''&se='' @ showInt (expiresOn options))"

definition tickingEnv :: issue_env where
  "tickingEnv =
     \<lparr>createIfNotExists = None,
      now = (\<lambda>k. 1763247782909 + int (k div 2)),
      randomText = (\<lambda>k. ''0.2n9zyybjrf4''),
      blobClientUrl = (\<lambda>c b. ''http://azurite:10000/devstoreaccount1/'' @ c @ ''/'' @ b),
      generateBlobSASQueryParameters = demoSign,
      resJson = (\<lambda>urls. None)\<rparr>"

definition frozenEnv :: issue_env where
  "frozenEnv = tickingEnv\<lparr>now := (\<lambda>k. 1763247782909)\<rparr>"



section \<open>Properties of the token issuance service\<close>

subsection \<open>Splitting\<close>






lemma split_free: "sep \<notin> set a \<Longrightarrow> split sep a = [a]"
  by (induction a) auto

subsection \<open>Parsing the connection string\<close>












subsection \<open>Decimal rendering and \<open>parseInt\<close>\<close>
















subsection \<open>The \<open>map\<close> loop\<close>

lemma snd_makeUploadUrl:
  "snd (makeUploadUrl env cred cn d) =
     \<lparr>clockReads = clockReads d + 3, randomDraws = randomDraws d + 1\<rparr>"
  by (simp add: makeUploadUrl_def Let_def split: sum.split)

lemma makeUploadUrl_Inr:
  assumes "makeUploadUrl env cred cn d = (Inr r, d')"
  shows "\<exists>tok. generateBlobSASQueryParameters env
            \<lparr>sasContainerName = cn, sasBlobName = blobName r, permissions = ''w'',
             protocol = HttpsAndHttp, startsOn = now env (clockReads d + 1),
             expiresOn = now env (clockReads d + 2) + 300000\<rparr> cred = Inr tok
          \<and> uploadUrl r = fileUrl r @ ''?'' @ tok
          \<and> fileUrl r = blobClientUrl env cn (blobName r)
          \<and> blobName r = ''image-'' @ showInt (now env (clockReads d)) @ ''-''
                 @ substring (randomText env (randomDraws d)) 2 15 @ ''.jpg''"
  using assms by (auto simp add: makeUploadUrl_def Let_def split: sum.splits)

lemma mapUrls_Inr:
  "mapUrls env cred cn n \<lparr>clockReads = c, randomDraws = q\<rparr> = Inr rs \<Longrightarrow>
     length rs = n \<and>
     (\<forall>i<n. fst (makeUploadUrl env cred cn \<lparr>clockReads = c + 3 * i, randomDraws = q + i\<rparr>)
             = Inr (rs ! i))"
proof (induction n arbitrary: c q rs)
  case 0
  then show ?case by simp
next
  case (Suc n)
  let ?d = "\<lparr>clockReads = c, randomDraws = q\<rparr>" and ?d' = "\<lparr>clockReads = c + 3, randomDraws = q + 1\<rparr>"
  obtain x d' where m: "makeUploadUrl env cred cn ?d = (x, d')"
    by (cases "makeUploadUrl env cred cn ?d")
  with snd_makeUploadUrl [of env cred cn ?d] have d': "d' = ?d'" by simp
  from Suc.prems m obtain r where x: "x = Inr r" by (cases x) simp_all
  from Suc.prems m x d' obtain rs' where rs': "mapUrls env cred cn n ?d' = Inr rs'"
    and rs: "rs = r # rs'"
    by (cases "mapUrls env cred cn n ?d'") simp_all
  from Suc.IH [OF rs'] have len: "length rs' = n"
    and ih: "\<forall>i<n. fst (makeUploadUrl env cred cn
                \<lparr>clockReads = c + 3 + 3 * i, randomDraws = q + 1 + i\<rparr>) = Inr (rs' ! i)"
    by simp_all
  have "\<forall>i<Suc n. fst (makeUploadUrl env cred cn
                \<lparr>clockReads = c + 3 * i, randomDraws = q + i\<rparr>) = Inr (rs ! i)"
  proof (intro allI impI)
    fix i assume i: "i < Suc n"
    show "fst (makeUploadUrl env cred cn \<lparr>clockReads = c + 3 * i, randomDraws = q + i\<rparr>)
             = Inr (rs ! i)"
    proof (cases i)
      case 0
      with m x rs show ?thesis by simp
    next
      case (Suc j)
      with i have "j < n" by simp
      with ih have "fst (makeUploadUrl env cred cn
                \<lparr>clockReads = c + 3 + 3 * j, randomDraws = q + 1 + j\<rparr>) = Inr (rs' ! j)"
        by simp
      moreover have "c + 3 + 3 * j = c + 3 * i" "q + 1 + j = q + i" using Suc by simp_all
      ultimately show ?thesis using rs Suc by simp
    qed
  qed
  with len rs show ?case by simp
qed


lemma postUploadUrls_Json:
  assumes "postUploadUrls env cred count = Json rs"
  shows "\<exists>len. arrayFromLength (numUrls count) = Inr len
          \<and> mapUrls env cred ''images'' len \<lparr>clockReads = 0, randomDraws = 0\<rparr> = Inr rs"
  using assms
  by (auto simp add: postUploadUrls_def Let_def split: option.splits sum.splits)















lemmas run_defs = postUploadUrls_def numUrls_def parseInt_def isWhiteSpace_def isDigit_def
  digitValue_def digitsValue_def arrayFromLength_def makeUploadUrl_def Let_def
  tickingEnv_def frozenEnv_def demoSign_def showInt_def showNat.simps digitChar_def
  substring_def

subsection \<open>The token of a record\<close>

text \<open>
  C1, as stated, fails in its last part: \<open>startsOn\<close> and \<open>expiresOn\<close> are built from
  two separate readings of the clock. When the clock advances between them, here by one
  millisecond, the token expires 300001 ms after it starts.
\<close>

theorem issued_token_window_counterexample:
  "postUploadUrls tickingEnv demoCredential (Some ''1'') =
     Json [\<lparr>blobName = ''image-1763247782909-2n9zyybjrf4.jpg'',
            uploadUrl = ''http://azurite:10000/devstoreaccount1/images/image-1763247782909-2n9zyybjrf4.jpg?sp=w&st=1763247782909&se=1763248082910'',
            fileUrl = ''http://azurite:10000/devstoreaccount1/images/image-1763247782909-2n9zyybjrf4.jpg''\<rparr>]
   \<and> (1763248082910 :: int) \<noteq> 1763247782909 + 5 * 60 * 1000"
  by (simp add: run_defs)

text \<open>
  C1, amended. For every record of a response, the token in its \<open>uploadUrl\<close> (the text
  after the \<open>?\<close> that follows the record's \<open>fileUrl\<close>) is what the SDK returned for
  options naming the container \<open>images\<close> and that record's \<open>blobName\<close>, the
  permission \<open>w\<close> alone, the protocol "HTTPS and HTTP", \<open>startsOn\<close> equal to one
  clock reading and \<open>expiresOn\<close> equal to the next clock reading plus five minutes (so
  exactly five minutes after \<open>startsOn\<close> when the two readings agree). The record with
  index \<open>i\<close> uses the readings \<open>3i + 1\<close> and \<open>3i + 2\<close> of the request, reading
  \<open>3i\<close> having gone into the blob name.
\<close>

theorem issued_token_scope:
  assumes "postUploadUrls env cred count = Json rs" and "i < length rs"
  shows "\<exists>tok. generateBlobSASQueryParameters env
            \<lparr>sasContainerName = ''images'', sasBlobName = blobName (rs ! i),
             permissions = ''w'', protocol = HttpsAndHttp,
             startsOn = now env (3 * i + 1),
             expiresOn = now env (3 * i + 2) + 5 * 60 * 1000\<rparr> cred = Inr tok
          \<and> uploadUrl (rs ! i) = fileUrl (rs ! i) @ ''?'' @ tok
          \<and> fileUrl (rs ! i) = blobClientUrl env ''images'' (blobName (rs ! i))"
proof -
  from postUploadUrls_Json [OF assms(1)] obtain len where
    m: "mapUrls env cred ''images'' len \<lparr>clockReads = 0, randomDraws = 0\<rparr> = Inr rs" by blast
  from mapUrls_Inr [OF m] assms(2)
  have "fst (makeUploadUrl env cred ''images'' \<lparr>clockReads = 3 * i, randomDraws = i\<rparr>) = Inr (rs ! i)"
    by simp
  then obtain d' where
    "makeUploadUrl env cred ''images'' \<lparr>clockReads = 3 * i, randomDraws = i\<rparr> = (Inr (rs ! i), d')"
    by (cases "makeUploadUrl env cred ''images'' \<lparr>clockReads = 3 * i, randomDraws = i\<rparr>") simp
  from makeUploadUrl_Inr [OF this] obtain tok where
    "generateBlobSASQueryParameters env
            \<lparr>sasContainerName = ''images'', sasBlobName = blobName (rs ! i),
             permissions = ''w'', protocol = HttpsAndHttp,
             startsOn = now env (3 * i + 1),
             expiresOn = now env (3 * i + 2) + 300000\<rparr> cred = Inr tok"
    "uploadUrl (rs ! i) = fileUrl (rs ! i) @ ''?'' @ tok"
    "fileUrl (rs ! i) = blobClientUrl env ''images'' (blobName (rs ! i))"
    by auto
  then show ?thesis by simp
qed

theorem issued_token_scope_witness:
  "postUploadUrls frozenEnv demoCredential (Some ''1'') =
     Json [\<lparr>blobName = ''image-1763247782909-2n9zyybjrf4.jpg'',
            uploadUrl = ''http://azurite:10000/devstoreaccount1/images/image-1763247782909-2n9zyybjrf4.jpg?sp=w&st=1763247782909&se=1763248082909'',
            fileUrl = ''http://azurite:10000/devstoreaccount1/images/image-1763247782909-2n9zyybjrf4.jpg''\<rparr>]
   \<and> (\<exists>tok. demoSign \<lparr>sasContainerName = ''images'',
                sasBlobName = ''image-1763247782909-2n9zyybjrf4.jpg'',
                permissions = ''w'', protocol = HttpsAndHttp,
                startsOn = 1763247782909, expiresOn = 1763247782909 + 5 * 60 * 1000\<rparr>
              demoCredential = Inr tok
         \<and> ''http://azurite:10000/devstoreaccount1/images/image-1763247782909-2n9zyybjrf4.jpg?sp=w&st=1763247782909&se=1763248082909''
           = ''http://azurite:10000/devstoreaccount1/images/image-1763247782909-2n9zyybjrf4.jpg'' @ ''?'' @ tok)"
proof -
  let ?r = "\<lparr>blobName = ''image-1763247782909-2n9zyybjrf4.jpg'',
            uploadUrl = ''http://azurite:10000/devstoreaccount1/images/image-1763247782909-2n9zyybjrf4.jpg?sp=w&st=1763247782909&se=1763248082909'',
            fileUrl = ''http://azurite:10000/devstoreaccount1/images/image-1763247782909-2n9zyybjrf4.jpg''\<rparr>"
  have run: "postUploadUrls frozenEnv demoCredential (Some ''1'') = Json [?r]"
    by (simp add: run_defs)
  have e: "generateBlobSASQueryParameters frozenEnv = demoSign" "now frozenEnv = (\<lambda>k. 1763247782909)"
    by (simp_all add: frozenEnv_def tickingEnv_def)
  from issued_token_scope [OF run, of 0] run show ?thesis
    by (simp add: e)
qed

subsection \<open>Number and names of the records\<close>






subsection \<open>The default count\<close>




subsection \<open>Zero and negative counts\<close>




section \<open>Properties of the sweep utility\<close>

subsection \<open>The two loops in closed form\<close>

lemma listLoop_eq:
  "listLoop bs (acc, st) =
     (acc @ map name bs,
      st\<lparr>console := console st @ map (\<lambda>b. InfoFound (name b) (contentLength b)) bs\<rparr>)"
  by (induction bs arbitrary: acc st) (simp_all add: say_def)

lemma deleteLoop_eq:
  "deleteLoop env bs (s, f, st) =
     (let ks = enumerate (length (deleteCalls st)) bs in
      (s + length (filter (\<lambda>kb. \<not> deleteFails env kb) ks),
       f + length (filter (deleteFails env) ks),
       \<lparr>console = console st @ map (deleteLine env) ks,
        deleteCalls = deleteCalls st @ bs\<rparr>))"
proof (induction bs arbitrary: s f st)
  case Nil
  show ?case by simp
next
  case (Cons b bs)
  show ?case
    by (cases "deleteResult env (length (deleteCalls st)) b")
       (simp_all add: Cons.IH Let_def say_def deleteLine_def deleteFails_def)
qed

lemma main_nonempty:
  assumes "existsResult env = Inr True" "listFailure env = None" "listed env \<noteq> []"
  shows "main env =
    (let names = map name (listed env); ks = enumerate 0 names;
         s = length (filter (\<lambda>kb. \<not> deleteFails env kb) ks);
         f = length (filter (deleteFails env) ks) in
     (\<lparr>console = [InfoStarting, StatusCleaningUp ''images'', InfoExistsListing ''images'']
          @ map (\<lambda>b. InfoFound (name b) (contentLength b)) (listed env)
          @ [InfoFoundCount (length names)]
          @ map (deleteLine env) ks
          @ [SummaryFound (length names), SummaryDeleted s, SummaryFailed f,
             verdict s (length names), InfoCompleted],
        deleteCalls = names\<rparr>, 0))"
  using assms
  by (simp add: main_def cleanupContainer_def listLoop_eq deleteLoop_eq say_def Let_def verdict_def)

lemma filter_summary_deleteLines: "filter isSummary (map (deleteLine env) ks) = []"
  by (simp add: filter_empty_conv isSummary_def deleteLine_def split: option.split)

lemma filter_summary_found:
  "filter isSummary (map (\<lambda>b. InfoFound (name b) (contentLength b)) bs) = []"
  by (simp add: filter_empty_conv isSummary_def)

lemma main_exit_status:
  "snd (main env) =
     (case existsResult env of
        Inl e \<Rightarrow> 1
      | Inr ex \<Rightarrow> if ex \<and> listFailure env \<noteq> None then 1 else 0)"
  by (simp add: main_def cleanupContainer_def listLoop_eq deleteLoop_eq say_def Let_def
        split: sum.split option.split prod.split)

subsection \<open>Outcome accounting\<close>

text \<open>
  C6, as stated, fails for a run whose enumeration throws after it has yielded names:
  the \<open>for await\<close> loop has no handler, so the two names collected here are never
  attempted, no summary is printed, and the process exits with status 1.
\<close>

theorem sweep_accounting_counterexample:
  "existsResult (demoStorage\<lparr>listFailure := Some (Error ''socket hang up'')\<rparr>) = Inr True
   \<and> map name (listed (demoStorage\<lparr>listFailure := Some (Error ''socket hang up'')\<rparr>))
       = [''a.jpg'', ''b.jpg'']
   \<and> deleteCalls (fst (main (demoStorage\<lparr>listFailure := Some (Error ''socket hang up'')\<rparr>))) = []
   \<and> filter isSummary
         (console (fst (main (demoStorage\<lparr>listFailure := Some (Error ''socket hang up'')\<rparr>)))) = []
   \<and> console (fst (main (demoStorage\<lparr>listFailure := Some (Error ''socket hang up'')\<rparr>))) =
       [InfoStarting, StatusCleaningUp ''images'', InfoExistsListing ''images'',
        InfoFound ''a.jpg'' 67, InfoFound ''b.jpg'' 67, ErrorCleanupFailed ''socket hang up'']
   \<and> snd (main (demoStorage\<lparr>listFailure := Some (Error ''socket hang up'')\<rparr>)) = 1"
  by (simp add: demoStorage_def main_def cleanupContainer_def listLoop_eq say_def isSummary_def)

text \<open>
  C6, amended. When the container exists and the enumeration completes with at least
  one blob, the calls of \<open>blobClient.delete\<close> are exactly the collected names, one call
  per collected name and in collection order, whatever each call does: a throwing call
  is counted in \<open>failCount\<close> and the loop goes on. The summary block printed afterwards
  shows \<open>found\<close>, \<open>succeeded\<close> and \<open>failed\<close> with attempted = found and
  succeeded + failed = found, where failed is the number of calls that threw.
\<close>

theorem sweep_accounting:
  assumes "existsResult env = Inr True" and "listFailure env = None" and "listed env \<noteq> []"
  shows "\<exists>succeeded failed.
           deleteCalls (fst (main env)) = map name (listed env)
         \<and> filter isSummary (console (fst (main env))) =
             [SummaryFound (length (listed env)), SummaryDeleted succeeded, SummaryFailed failed]
         \<and> length (deleteCalls (fst (main env))) = length (listed env)
         \<and> succeeded + failed = length (listed env)
         \<and> failed = length (filter (deleteFails env) (enumerate 0 (map name (listed env))))"
proof -
  let ?ks = "enumerate 0 (map name (listed env))"
  have len: "length (filter (\<lambda>kb. \<not> deleteFails env kb) ?ks)
               + length (filter (deleteFails env) ?ks) = length (listed env)"
    using sum_length_filter_compl [of "deleteFails env" ?ks] by simp
  show ?thesis
    apply (rule exI [of _ "length (filter (\<lambda>kb. \<not> deleteFails env kb) ?ks)"])
    apply (rule exI [of _ "length (filter (deleteFails env) ?ks)"])
    using len
    by (simp add: main_nonempty [OF assms] Let_def filter_summary_deleteLines
          filter_summary_found isSummary_def verdict_def)
qed

theorem sweep_accounting_witness:
  "existsResult demoStorage = Inr True \<and> listFailure demoStorage = None
   \<and> listed demoStorage \<noteq> []
   \<and> deleteCalls (fst (main demoStorage)) = [''a.jpg'', ''b.jpg'']
   \<and> filter isSummary (console (fst (main demoStorage))) =
        [SummaryFound 2, SummaryDeleted 1, SummaryFailed 1]"
proof -
  have h: "existsResult demoStorage = Inr True" "listFailure demoStorage = None"
    "listed demoStorage \<noteq> []"
    by (simp_all add: demoStorage_def)
  have f: "length (filter (deleteFails demoStorage)
             (enumerate 0 (map name (listed demoStorage)))) = 1"
    by (simp add: demoStorage_def deleteFails_def)
  from sweep_accounting [OF h] obtain s f where
    "deleteCalls (fst (main demoStorage)) = map name (listed demoStorage)"
    "filter isSummary (console (fst (main demoStorage))) =
       [SummaryFound (length (listed demoStorage)), SummaryDeleted s, SummaryFailed f]"
    "s + f = length (listed demoStorage)"
    "f = length (filter (deleteFails demoStorage) (enumerate 0 (map name (listed demoStorage))))"
    by blast
  with f h show ?thesis by (simp add: demoStorage_def)
qed

subsection \<open>Exit status\<close>

text \<open>
  C7, as stated, fails: the exit status is also 1 when \<open>containerClient.exists()\<close>
  throws, before any enumeration has started. Here the emulator is unreachable and
  the listing would have completed normally.
\<close>

theorem sweep_exit_counterexample:
  "snd (main \<lparr>existsResult = Inl (Error ''connect ECONNREFUSED 127.0.0.1:10000''),
              listed = [], listFailure = None, deleteResult = (\<lambda>k n. None)\<rparr>) = 1
   \<and> listFailure \<lparr>existsResult = Inl (Error ''connect ECONNREFUSED 127.0.0.1:10000''),
              listed = [], listFailure = None, deleteResult = (\<lambda>k n. None)\<rparr> = None"
  by (simp add: main_exit_status)

text \<open>
  C7, amended. The sweep exits with status 1 exactly when the existence probe throws or,
  the container existing, the enumeration throws; otherwise it exits with status 0.
  The outcomes of the individual deletions have no influence on the exit status.
\<close>

theorem sweep_exit_status:
  "(snd (main env) \<noteq> 0 \<longleftrightarrow>
      (\<exists>e. existsResult env = Inl e) \<or> (existsResult env = Inr True \<and> listFailure env \<noteq> None))
   \<and> snd (main env) \<in> {0, 1}
   \<and> snd (main (env\<lparr>deleteResult := d\<rparr>)) = snd (main env)"
  by (cases "existsResult env") (auto simp add: main_exit_status)

theorem sweep_exit_status_witness:
  "snd (main demoStorage) = 0
   \<and> snd (main (demoStorage\<lparr>deleteResult := (\<lambda>k n. Some (Error ''AuthorizationFailure''))\<rparr>)) = 0
   \<and> snd (main (demoStorage\<lparr>listFailure := Some (Error ''socket hang up'')\<rparr>)) \<noteq> 0"
  using sweep_exit_status [of demoStorage "\<lambda>k n. Some (Error ''AuthorizationFailure'')"]
        sweep_exit_status [of "demoStorage\<lparr>listFailure := Some (Error ''socket hang up'')\<rparr>"]
  by (simp add: demoStorage_def)

subsection \<open>Nothing to do\<close>



section \<open>Properties of the upload agent\<close>

subsection \<open>The loop in closed form\<close>

lemma uploadOne_eq:
  "uploadOne put u st =
     \<lparr>printed = printed st @ report u (put (length (putCalls st)) (clientUploadUrl (uploadUrl u))),
      putCalls = putCalls st @ [clientUploadUrl (uploadUrl u)]\<rparr>"
  by (simp add: uploadOne_def report_def tell_def Let_def split: sum.split)

lemma uploadLoop_eq:
  "uploadLoop put urls st =
     \<lparr>printed = printed st @
        concat (map (\<lambda>(k, u). report u (put k (clientUploadUrl (uploadUrl u))))
                    (enumerate (length (putCalls st)) urls)),
      putCalls = putCalls st @ map (\<lambda>u. clientUploadUrl (uploadUrl u)) urls\<rparr>"
  by (induction urls arbitrary: st) (simp_all add: uploadOne_eq)

subsection \<open>Replacing the first occurrence\<close>

lemma replaceFirst_absent: "\<not> sublist pat s \<Longrightarrow> replaceFirst pat rep s = s"
proof (induction s)
  case Nil
  then show ?case by auto
next
  case (Cons c cs)
  from Cons.prems have "\<not> prefix pat (c # cs)" and "\<not> sublist pat cs"
    by (simp_all add: sublist_Cons_right)
  with Cons.IH show ?case by simp
qed

lemma drop_append_le: "n \<le> length a \<Longrightarrow> drop n (a @ b) = drop n a @ b"
  by simp

lemma sublist_length_le: "sublist pat a \<Longrightarrow> length pat \<le> length a"
  by (auto simp: sublist_def)

lemma prefix_append_long:
  assumes "length pat \<le> length a"
  shows "prefix pat (a @ b) \<longleftrightarrow> prefix pat a"
proof
  assume "prefix pat (a @ b)"
  moreover have "prefix a (a @ b)" by simp
  ultimately show "prefix pat a" using assms by (rule prefix_length_prefix)
next
  assume "prefix pat a"
  then show "prefix pat (a @ b)" by (rule prefix_prefix)
qed

lemma replaceFirst_append:
  "sublist pat a \<Longrightarrow> replaceFirst pat rep (a @ b) = replaceFirst pat rep a @ b"
proof (induction a)
  case Nil
  then show ?case by (cases b) auto
next
  case (Cons c cs)
  let ?a = "c # cs"
  have len: "length pat \<le> length ?a" using Cons.prems by (rule sublist_length_le)
  have pe: "prefix pat (?a @ b) \<longleftrightarrow> prefix pat ?a" using len by (rule prefix_append_long)
  have step: "replaceFirst pat rep (?a @ b) =
      (if prefix pat (?a @ b) then rep @ drop (length pat) (?a @ b)
       else c # replaceFirst pat rep (cs @ b))" by simp
  show ?case
  proof (cases "prefix pat ?a")
    case True
    then show ?thesis unfolding step pe drop_append_le [OF len] by simp
  next
    case False
    with Cons.prems have "sublist pat cs" by (simp add: sublist_Cons_right)
    then have "replaceFirst pat rep (cs @ b) = replaceFirst pat rep cs @ b" by (rule Cons.IH)
    with False show ?thesis unfolding step pe by simp
  qed
qed


lemma set_replaceFirst: "set (replaceFirst pat rep s) \<subseteq> set rep \<union> set s"
proof (induction s)
  case Nil
  show ?case by auto
next
  case (Cons c cs)
  have "set (drop (length pat) (c # cs)) \<subseteq> set (c # cs)" by (rule set_drop_subset)
  with Cons.IH show ?case by auto
qed

lemma takeWhile_dropWhile_Nil: "takeWhile P (dropWhile P xs) = []"
  by (induction xs) auto

lemma not_sublist_across:
  assumes "pat \<noteq> []" and "c \<notin> set pat" and "\<not> sublist pat a" and "\<not> sublist pat q"
  shows "\<not> sublist pat (a @ c # q)"
proof
  assume "sublist pat (a @ c # q)"
  then consider "sublist pat a" | "sublist pat (c # q)"
    | xs1 xs2 where "pat = xs1 @ xs2" "suffix xs1 a" "prefix xs2 (c # q)"
    unfolding sublist_append by blast
  then show False
  proof cases
    case 1
    with assms show False by simp
  next
    case 2
    then have "prefix pat (c # q)" using assms by (simp add: sublist_Cons_right)
    then have "hd pat = c" using assms(1) by (cases pat) simp_all
    with assms(1,2) show False using hd_in_set by blast
  next
    case 3
    show False
    proof (cases xs2)
      case Nil
      with 3 have "suffix pat a" by simp
      then have "sublist pat a" by (rule suffix_imp_sublist)
      with assms show False by simp
    next
      case (Cons y ys)
      with 3 have "y = c" by simp
      with Cons 3 have "c \<in> set pat" by simp
      with assms show False by simp
    qed
  qed
qed

lemma replaceFirst_before:
  assumes "pat \<noteq> []" and "c \<notin> set pat"
    and "sublist pat (takeWhile (\<lambda>x. x \<noteq> c) u) \<or> \<not> sublist pat (drop 1 (dropWhile (\<lambda>x. x \<noteq> c) u))"
  shows "replaceFirst pat rep u =
           replaceFirst pat rep (takeWhile (\<lambda>x. x \<noteq> c) u) @ dropWhile (\<lambda>x. x \<noteq> c) u"
proof -
  let ?a = "takeWhile (\<lambda>x. x \<noteq> c) u" and ?r = "dropWhile (\<lambda>x. x \<noteq> c) u"
  have u: "u = ?a @ ?r" by simp
  show ?thesis
  proof (cases "sublist pat ?a")
    case True
    then have "replaceFirst pat rep (?a @ ?r) = replaceFirst pat rep ?a @ ?r"
      by (rule replaceFirst_append)
    then show ?thesis by simp
  next
    case False
    with assms(3) have nq: "\<not> sublist pat (drop 1 ?r)" by simp
    have "\<not> sublist pat (?a @ ?r)"
    proof (cases ?r)
      case Nil
      show ?thesis by (simp only: Nil append_Nil2 False not_False_eq_True)
    next
      case (Cons y ys)
      have "y = c" using hd_dropWhile [of "\<lambda>x. x \<noteq> c" u] unfolding Cons by simp
      with Cons nq False assms(1,2) show ?thesis
        using not_sublist_across [of pat c ?a ys] by simp
    qed
    then have "\<not> sublist pat u" by simp
    then have "replaceFirst pat rep u = u" by (rule replaceFirst_absent)
    moreover have "replaceFirst pat rep ?a = ?a" using False by (rule replaceFirst_absent)
    ultimately show ?thesis by simp
  qed
qed

lemma replaceFirst_at:
  assumes "pat \<noteq> []" and "\<not> sublist pat (pre @ butlast pat)"
  shows "replaceFirst pat rep (pre @ pat @ rest) = pre @ rep @ rest"
  using assms(2)
proof (induction pre)
  case Nil
  from assms(1) obtain y ys where "pat = y # ys" by (cases pat) auto
  then show ?case by simp
next
  case (Cons c cs)
  have np: "\<not> prefix pat (c # cs @ pat @ rest)"
  proof
    assume p: "prefix pat (c # cs @ pat @ rest)"
    have "pat = butlast pat @ [last pat]" using assms(1) by simp
    then have "c # cs @ pat @ rest = ((c # cs) @ butlast pat) @ (last pat # rest)"
      by (metis append.assoc append_Cons append_Nil)
    then have q: "prefix ((c # cs) @ butlast pat) (c # cs @ pat @ rest)"
      by (metis prefixI)
    have "length pat \<le> length ((c # cs) @ butlast pat)" by simp
    with p q have "prefix pat ((c # cs) @ butlast pat)" by (rule prefix_length_prefix)
    then have "sublist pat ((c # cs) @ butlast pat)" by (rule prefix_imp_sublist)
    with Cons.prems show False by simp
  qed
  from Cons.prems have "\<not> sublist pat (cs @ butlast pat)" by (simp add: sublist_Cons_right)
  then have "replaceFirst pat rep (cs @ pat @ rest) = cs @ rep @ rest" by (rule Cons.IH)
  with np show ?case by simp
qed

subsection \<open>Per-record outcome handling\<close>

text \<open>
  C9. The agent sends exactly one PUT per record, in the order of \<open>data.urls\<close>, to the
  rewritten upload URL, and what it prints is the concatenation, in that order, of one
  report per record; the report of a record is determined by that record and the
  outcome of its own PUT alone. A response with a status in 200..299 is reported as a
  success with the blob name and the file URL; a response with any other status as a
  failure with the status code and status text, followed by the body text (or, when
  reading the body rejects, by the error of that rejection); a rejected \<open>fetch\<close> as an
  error for that record. In every case the loop goes on to the next record and ends with
  the completion line.
\<close>

theorem upload_agent_outcomes:
  "printed (client (Inr urls) put) =
      [ReceivedUploadUrls urls, CreatedFakeImage 67, StartingUploads]
      @ concat (map (\<lambda>(k, u). report u (put k (clientUploadUrl (uploadUrl u)))) (enumerate 0 urls))
      @ [UploadProcessCompleted]
   \<and> putCalls (client (Inr urls) put) = map (\<lambda>u. clientUploadUrl (uploadUrl u)) urls
   \<and> (\<forall>u r. ok r \<longrightarrow>
         report u (Inr r) =
           [UploadingTo (blobName u), StatusSuccess (blobName u), InfoFileUrl (fileUrl u)])
   \<and> (\<forall>u r t. \<not> ok r \<and> bodyText r = Inr t \<longrightarrow>
         report u (Inr r) =
           [UploadingTo (blobName u), ErrorFailedToUpload (blobName u),
            ErrorStatus (status r) (statusText r), ErrorBody t])
   \<and> (\<forall>u r e. \<not> ok r \<and> bodyText r = Inl e \<longrightarrow>
         report u (Inr r) =
           [UploadingTo (blobName u), ErrorFailedToUpload (blobName u),
            ErrorStatus (status r) (statusText r), ErrorUploading (blobName u) (message e)])
   \<and> (\<forall>u e. report u (Inl e) =
           [UploadingTo (blobName u), ErrorUploading (blobName u) (message e)])
   \<and> (\<forall>r. ok r \<longleftrightarrow> 200 \<le> status r \<and> status r < 300)"
proof -
  have len: "length fakeImageBuffer = 67" by (simp add: fakeImageBuffer_def)
  have "printed (client (Inr urls) put) =
      [ReceivedUploadUrls urls, CreatedFakeImage 67, StartingUploads]
      @ concat (map (\<lambda>(k, u). report u (put k (clientUploadUrl (uploadUrl u)))) (enumerate 0 urls))
      @ [UploadProcessCompleted]"
    by (simp add: client_def uploadLoop_eq tell_def len)
  moreover have "putCalls (client (Inr urls) put) = map (\<lambda>u. clientUploadUrl (uploadUrl u)) urls"
    by (simp add: client_def uploadLoop_eq tell_def)
  moreover have "\<forall>r. ok r \<longleftrightarrow> 200 \<le> status r \<and> status r < 300"
    by (auto simp add: ok_def)
  ultimately show ?thesis by (simp add: report_def)
qed

theorem upload_agent_outcomes_witness:
  "printed (client (Inr demoUrls) demoPut) =
     [ReceivedUploadUrls demoUrls, CreatedFakeImage 67, StartingUploads,
      UploadingTo ''a.jpg'', StatusSuccess ''a.jpg'',
      InfoFileUrl ''http://azurite:10000/d/images/a.jpg'',
      UploadingTo ''b.jpg'', ErrorFailedToUpload ''b.jpg'', ErrorStatus 403 ''Forbidden'',
      ErrorBody ''AuthenticationFailed'',
      UploadingTo ''c.jpg'', ErrorUploading ''c.jpg'' ''fetch failed'',
      UploadProcessCompleted]
   \<and> putCalls (client (Inr demoUrls) demoPut) =
       [''http://localhost:10000/d/images/a.jpg?sp=w&sig=A'',
        ''http://localhost:10000/d/images/b.jpg?sp=w&sig=B'',
        ''http://localhost:10000/d/images/c.jpg?sp=w&sig=C'']"
proof -
  have e: "enumerate 0 demoUrls = [(0, demoUrls ! 0), (1, demoUrls ! 1), (2, demoUrls ! 2)]"
    by (simp add: demoUrls_def)
  have o: "ok \<lparr>status = 201, statusText = ''Created'', bodyText = Inr []\<rparr>"
     "\<not> ok \<lparr>status = 403, statusText = ''Forbidden'', bodyText = Inr ''AuthenticationFailed''\<rparr>"
    by (simp_all add: ok_def)
  have u: "map (\<lambda>u. clientUploadUrl (uploadUrl u)) demoUrls =
       [''http://localhost:10000/d/images/a.jpg?sp=w&sig=A'',
        ''http://localhost:10000/d/images/b.jpg?sp=w&sig=B'',
        ''http://localhost:10000/d/images/c.jpg?sp=w&sig=C'']"
    by (simp add: demoUrls_def clientUploadUrl_def)
  from upload_agent_outcomes [of demoUrls demoPut] o u show ?thesis
    by (simp add: e demoPut_def) (simp add: demoUrls_def)
qed

subsection \<open>The hostname rewrite\<close>

text \<open>
  The rewrite on its own is a textual replacement of the first occurrence of
  \<open>azurite:10000\<close>, wherever it stands: the query string is kept whenever that text
  occurs before the first \<open>?\<close> or does not occur after it.
\<close>

lemma clientUploadUrl_general:
  assumes "sublist ''azurite:10000'' (beforeQuery url) \<or> \<not> sublist ''azurite:10000'' (queryOf url)"
  shows "queryOf (clientUploadUrl url) = queryOf url
       \<and> beforeQuery (clientUploadUrl url) = clientUploadUrl (beforeQuery url)"
proof -
  let ?P = "''azurite:10000''" and ?R = "''localhost:10000''"
  let ?a = "takeWhile (\<lambda>x. x \<noteq> CHR ''?'') url" and ?r = "dropWhile (\<lambda>x. x \<noteq> CHR ''?'') url"
  have eq: "clientUploadUrl url = replaceFirst ?P ?R ?a @ ?r"
    unfolding clientUploadUrl_def
    using assms by (intro replaceFirst_before) (simp_all add: beforeQuery_def queryOf_def)
  have "set (replaceFirst ?P ?R ?a) \<subseteq> set ?R \<union> set ?a" by (rule set_replaceFirst)
  moreover have "CHR ''?'' \<notin> set ?a" by (auto dest: set_takeWhileD)
  ultimately have noq: "\<And>x. x \<in> set (replaceFirst ?P ?R ?a) \<Longrightarrow> x \<noteq> CHR ''?''"
    by auto
  have r: "takeWhile (\<lambda>x. x \<noteq> CHR ''?'') ?r = []"
    by (rule takeWhile_dropWhile_Nil)
  have "queryOf (clientUploadUrl url) = queryOf url"
    unfolding eq queryOf_def using noq by (simp add: dropWhile_append2)
  moreover have "beforeQuery (clientUploadUrl url) = clientUploadUrl (beforeQuery url)"
    unfolding eq beforeQuery_def using noq r
    by (simp add: takeWhile_append2 clientUploadUrl_def)
  ultimately show ?thesis by simp
qed

lemma colon_free_no_host: "CHR '':'' \<notin> set t \<Longrightarrow> \<not> sublist ''azurite:10000'' t"
proof
  assume "CHR '':'' \<notin> set t" and "sublist ''azurite:10000'' t"
  from set_mono_sublist [OF this(2)] have "CHR '':'' \<in> set t" by simp
  with \<open>CHR '':'' \<notin> set t\<close> show False by simp
qed

lemma clientUploadUrl_token:
  assumes "CHR '':'' \<notin> set sasToken"
  shows "clientUploadUrl (url @ ''?'' @ sasToken) = clientUploadUrl url @ ''?'' @ sasToken"
proof (cases "sublist ''azurite:10000'' url")
  case True
  then show ?thesis unfolding clientUploadUrl_def by (rule replaceFirst_append)
next
  case False
  have "\<not> sublist ''azurite:10000'' sasToken" using assms by (rule colon_free_no_host)
  with False have "\<not> sublist ''azurite:10000'' (url @ CHR ''?'' # sasToken)"
    by (intro not_sublist_across) simp_all
  then have "replaceFirst ''azurite:10000'' ''localhost:10000'' (url @ CHR ''?'' # sasToken)
               = url @ CHR ''?'' # sasToken"
    by (rule replaceFirst_absent)
  moreover have "replaceFirst ''azurite:10000'' ''localhost:10000'' url = url"
    using False by (rule replaceFirst_absent)
  ultimately show ?thesis by (simp add: clientUploadUrl_def)
qed

text \<open>The upload URLs of the issuance service have this shape: for every record of a
  response, whenever the signing function emits tokens without \<open>:\<close>, the agent's
  rewrite changes the record's blob URL alone and keeps the token.\<close>

lemma issued_upload_url_rewrite:
  assumes "postUploadUrls env cred count = Json rs" and "i < length rs"
    and "\<forall>options tok. generateBlobSASQueryParameters env options cred = Inr tok
                        \<longrightarrow> CHR '':'' \<notin> set tok"
  shows "\<exists>tok. uploadUrl (rs ! i) = fileUrl (rs ! i) @ ''?'' @ tok
             \<and> clientUploadUrl (uploadUrl (rs ! i))
                 = clientUploadUrl (fileUrl (rs ! i)) @ ''?'' @ tok"
proof -
  from postUploadUrls_Json [OF assms(1)] obtain len where
    m: "mapUrls env cred ''images'' len \<lparr>clockReads = 0, randomDraws = 0\<rparr> = Inr rs" by blast
  from mapUrls_Inr [OF m] assms(2)
  have "fst (makeUploadUrl env cred ''images'' \<lparr>clockReads = 3 * i, randomDraws = i\<rparr>) = Inr (rs ! i)"
    by simp
  then obtain d' where
    "makeUploadUrl env cred ''images'' \<lparr>clockReads = 3 * i, randomDraws = i\<rparr> = (Inr (rs ! i), d')"
    by (cases "makeUploadUrl env cred ''images'' \<lparr>clockReads = 3 * i, randomDraws = i\<rparr>") simp
  from makeUploadUrl_Inr [OF this] obtain options tok where
    g: "generateBlobSASQueryParameters env options cred = Inr tok"
    and u: "uploadUrl (rs ! i) = fileUrl (rs ! i) @ ''?'' @ tok"
    by blast
  from assms(3) g have "CHR '':'' \<notin> set tok" by blast
  then have "clientUploadUrl (fileUrl (rs ! i) @ ''?'' @ tok)
               = clientUploadUrl (fileUrl (rs ! i)) @ ''?'' @ tok"
    by (rule clientUploadUrl_token)
  with u show ?thesis by auto
qed

lemma queryOf_append:
  "CHR ''?'' \<notin> set a \<Longrightarrow> queryOf (a @ ''?'' @ q) = q"
  by (induction a) (auto simp add: queryOf_def)

lemma clientUploadUrl_no_question:
  assumes "CHR ''?'' \<notin> set url"
  shows "CHR ''?'' \<notin> set (clientUploadUrl url)"
proof -
  have "set (clientUploadUrl url) \<subseteq> set ''localhost:10000'' \<union> set url"
    unfolding clientUploadUrl_def by (rule set_replaceFirst)
  with assms show ?thesis by auto
qed

text \<open>
  C10. An upload URL as the service composes it is the blob URL, a \<open>?\<close>, and the token
  the SDK serialised, in which every value is percent-encoded, so that the token holds
  no \<open>:\<close>. For every such URL the agent's rewrite leaves the \<open>?\<close> and the token
  after it as they are, character for character, and rewrites the blob URL alone. When
  the blob URL has the host and port \<open>azurite:10000\<close> as the first occurrence of that
  text (\<open>pre\<close> being what stands before the host, the scheme), the rewritten URL is the
  original with exactly that host and port replaced by \<open>localhost:10000\<close>; a URL
  without the text is used as it is.
\<close>

theorem clientUploadUrl_rewrite:
  assumes "CHR '':'' \<notin> set sasToken"
  shows "clientUploadUrl (url @ ''?'' @ sasToken) = clientUploadUrl url @ ''?'' @ sasToken
       \<and> (CHR ''?'' \<notin> set url \<longrightarrow>
            queryOf (url @ ''?'' @ sasToken) = sasToken
            \<and> queryOf (clientUploadUrl (url @ ''?'' @ sasToken)) = sasToken)
       \<and> (url = pre @ ''azurite:10000'' @ rest
            \<and> \<not> sublist ''azurite:10000'' (pre @ ''azurite:1000'')
          \<longrightarrow> clientUploadUrl (url @ ''?'' @ sasToken)
                = pre @ ''localhost:10000'' @ rest @ ''?'' @ sasToken)
       \<and> (\<not> sublist ''azurite:10000'' url
          \<longrightarrow> clientUploadUrl (url @ ''?'' @ sasToken) = url @ ''?'' @ sasToken)"
proof (intro conjI impI)
  show t: "clientUploadUrl (url @ ''?'' @ sasToken) = clientUploadUrl url @ ''?'' @ sasToken"
    using assms by (rule clientUploadUrl_token)
  { assume q: "CHR ''?'' \<notin> set url"
    then show "queryOf (url @ ''?'' @ sasToken) = sasToken" by (rule queryOf_append)
    from q have "CHR ''?'' \<notin> set (clientUploadUrl url)" by (rule clientUploadUrl_no_question)
    then have "queryOf (clientUploadUrl url @ ''?'' @ sasToken) = sasToken"
      by (rule queryOf_append)
    then show "queryOf (clientUploadUrl (url @ ''?'' @ sasToken)) = sasToken"
      by (simp only: t) }
  { assume h: "url = pre @ ''azurite:10000'' @ rest
            \<and> \<not> sublist ''azurite:10000'' (pre @ ''azurite:1000'')"
    then have "clientUploadUrl (pre @ ''azurite:10000'' @ rest) = pre @ ''localhost:10000'' @ rest"
      unfolding clientUploadUrl_def by (intro replaceFirst_at) simp_all
    with h have "clientUploadUrl url = pre @ ''localhost:10000'' @ rest" by simp
    then show "clientUploadUrl (url @ ''?'' @ sasToken)
                = pre @ ''localhost:10000'' @ rest @ ''?'' @ sasToken"
      by (simp only: t append_assoc) }
  { assume "\<not> sublist ''azurite:10000'' url"
    then have "clientUploadUrl url = url"
      unfolding clientUploadUrl_def by (rule replaceFirst_absent)
    then show "clientUploadUrl (url @ ''?'' @ sasToken) = url @ ''?'' @ sasToken"
      by (simp only: t) }
qed

theorem clientUploadUrl_rewrite_witness:
  "CHR '':'' \<notin> set ''sv=2025-11-05&spr=https%2Chttp&st=2025-11-15T23%3A03%3A02Z&se=2025-11-15T23%3A08%3A02Z&sr=b&sp=w&sig=nWHF%2FJvaJ2''
   \<and> CHR ''?'' \<notin> set ''http://azurite:10000/devstoreaccount1/images/image-1763247782909-2n9zyybjrf4.jpg''
   \<and> \<not> sublist ''azurite:10000'' (''http://'' @ ''azurite:1000'')
   \<and> clientUploadUrl ''http://azurite:10000/devstoreaccount1/images/image-1763247782909-2n9zyybjrf4.jpg?sv=2025-11-05&spr=https%2Chttp&st=2025-11-15T23%3A03%3A02Z&se=2025-11-15T23%3A08%3A02Z&sr=b&sp=w&sig=nWHF%2FJvaJ2''
       = ''http://localhost:10000/devstoreaccount1/images/image-1763247782909-2n9zyybjrf4.jpg?sv=2025-11-05&spr=https%2Chttp&st=2025-11-15T23%3A03%3A02Z&se=2025-11-15T23%3A08%3A02Z&sr=b&sp=w&sig=nWHF%2FJvaJ2''
   \<and> queryOf (clientUploadUrl ''http://azurite:10000/devstoreaccount1/images/image-1763247782909-2n9zyybjrf4.jpg?sv=2025-11-05&spr=https%2Chttp&st=2025-11-15T23%3A03%3A02Z&se=2025-11-15T23%3A08%3A02Z&sr=b&sp=w&sig=nWHF%2FJvaJ2'')
       = ''sv=2025-11-05&spr=https%2Chttp&st=2025-11-15T23%3A03%3A02Z&se=2025-11-15T23%3A08%3A02Z&sr=b&sp=w&sig=nWHF%2FJvaJ2''"
proof -
  let ?tok = "''sv=2025-11-05&spr=https%2Chttp&st=2025-11-15T23%3A03%3A02Z&se=2025-11-15T23%3A08%3A02Z&sr=b&sp=w&sig=nWHF%2FJvaJ2''"
  let ?rest = "''/devstoreaccount1/images/image-1763247782909-2n9zyybjrf4.jpg''"
  let ?url = "''http://azurite:10000/devstoreaccount1/images/image-1763247782909-2n9zyybjrf4.jpg''"
  have a: "CHR '':'' \<notin> set ?tok" by simp
  have q: "CHR ''?'' \<notin> set ?url" by simp
  have b: "\<not> sublist ''azurite:10000'' (''http://'' @ ''azurite:1000'')"
    by (simp add: sublist_code)
  have u: "?url = ''http://'' @ ''azurite:10000'' @ ?rest" by simp
  note inst = clientUploadUrl_rewrite [OF a, of ?url "''http://''" ?rest]
  from inst u b have r: "clientUploadUrl (?url @ ''?'' @ ?tok)
      = ''http://'' @ ''localhost:10000'' @ ?rest @ ''?'' @ ?tok" by blast
  from inst q have k: "queryOf (clientUploadUrl (?url @ ''?'' @ ?tok)) = ?tok" by blast
  have j: "?url @ ''?'' @ ?tok = ''http://azurite:10000/devstoreaccount1/images/image-1763247782909-2n9zyybjrf4.jpg?sv=2025-11-05&spr=https%2Chttp&st=2025-11-15T23%3A03%3A02Z&se=2025-11-15T23%3A08%3A02Z&sr=b&sp=w&sig=nWHF%2FJvaJ2''"
    by simp
  from r k have "clientUploadUrl ''http://azurite:10000/devstoreaccount1/images/image-1763247782909-2n9zyybjrf4.jpg?sv=2025-11-05&spr=https%2Chttp&st=2025-11-15T23%3A03%3A02Z&se=2025-11-15T23%3A08%3A02Z&sr=b&sp=w&sig=nWHF%2FJvaJ2''
       = ''http://localhost:10000/devstoreaccount1/images/image-1763247782909-2n9zyybjrf4.jpg?sv=2025-11-05&spr=https%2Chttp&st=2025-11-15T23%3A03%3A02Z&se=2025-11-15T23%3A08%3A02Z&sr=b&sp=w&sig=nWHF%2FJvaJ2''"
    and "queryOf (clientUploadUrl ''http://azurite:10000/devstoreaccount1/images/image-1763247782909-2n9zyybjrf4.jpg?sv=2025-11-05&spr=https%2Chttp&st=2025-11-15T23%3A03%3A02Z&se=2025-11-15T23%3A08%3A02Z&sr=b&sp=w&sig=nWHF%2FJvaJ2'')
       = ?tok"
    unfolding j by simp_all
  with a q b show ?thesis by blast
qed

end
